theory Spec2Isabelle
  imports Main
begin

section \<open>The host editor, as far as decorator.ts reads it\<close>

text \<open>
  A \<^verbatim>\<open>Range\<close> of the editor API: start line, start character, end line, end character.
\<close>

datatype text_range = TextRange nat nat nat nat

text \<open>
  A \<^verbatim>\<open>Uri\<close>: the decorator reads its \<^verbatim>\<open>path\<close> and compares the result of
  \<^verbatim>\<open>toString()\<close>; both are kept as the strings the host hands out.
\<close>

record uri =
  path :: string
  toString :: string

text \<open>
  A \<^verbatim>\<open>TextDocument\<close>: its uri and its lines of text. \<^verbatim>\<open>lineCount\<close> is the number of
  lines, and \<^verbatim>\<open>lineAt(n).range\<close> spans line \<open>n\<close> from character 0 to the length of its text.
\<close>

record text_document =
  uri :: uri
  text_lines :: "string list"

text \<open>
  A \<^verbatim>\<open>TextEditor\<close>: the document it shows (a reference into the host's documents) and
  \<^verbatim>\<open>selection.start.line\<close>.
\<close>

record text_editor =
  editorDocument :: nat
  selectionStartLine :: nat

text \<open>
  Modelled from the spec: the \<^verbatim>\<open>AsmLine\<close> and \<^verbatim>\<open>AsmDocument\<close> declarations
  (\<^verbatim>\<open>./asm\<close>, \<^verbatim>\<open>./document\<close>) are not part of the sources at hand. The spec's
  ListingLine carries an optional source annotation with a file path and a 1-based line;
  a listing is the ordered sequence of its lines. The annotation's field \<^verbatim>\<open>file\<close> is
  \<open>file_path\<close> here.
\<close>

record asm_source =
  file_path :: string
  line :: int

record asm_line =
  source :: "asm_source option"

record asm_document =
  lines :: "asm_line list"

text \<open>
  The host at the moment an event is handled: editor and document objects by reference,
  the visible editors, what \<^verbatim>\<open>provider.provideAsmDocument\<close> returns for a uri (the
  provider of \<^verbatim>\<open>./provider\<close> is a parameter), and the resolved value of the setting
  \<^verbatim>\<open>compilerexplorer.dimUnusedSourceLines\<close> for a source uri.
\<close>

record host =
  editors :: "nat \<Rightarrow> text_editor"
  documents :: "nat \<Rightarrow> text_document"
  visibleTextEditors :: "nat list"
  provideAsmDocument :: "uri \<Rightarrow> asm_document"
  dimUnusedSetting :: "uri \<Rightarrow> bool"

datatype decoration_type = SelectedLine | UnusedLine

datatype reveal_type = Default | InCenter | InCenterIfOutsideViewport | AtTop

text \<open>The calls the decorator issues to the host and to the provider, in order.\<close>

datatype effect =
  SetDecorations nat decoration_type "text_range list"
| RevealRange nat text_range reveal_type
| ProvideAsmDocument uri

text \<open>
  Faults: \<^verbatim>\<open>lineAt\<close> throws on a line outside the document; reading a property of
  \<^verbatim>\<open>undefined\<close> throws a TypeError.
\<close>

datatype error = IllegalLine | TypeError

section \<open>The decorator\<close>

text \<open>
  The fields of \<^verbatim>\<open>AsmDecorator\<close> that the handlers read and write. The editors are
  references; \<open>listingUri\<close> is the constant \<^verbatim>\<open>uri\<close> the constructor captures from the
  listing editor's document.
\<close>

record decorator =
  srcEditor :: nat
  asmEditor :: nat
  listingUri :: uri
  document :: asm_document
  visible :: bool
  mappings :: "int \<Rightarrow> nat list option"

text \<open>
  What a handler leaves behind: the decorator's fields, the calls it issued, and the
  fault that ended it, if any. A fault keeps the fields and calls made before it.
\<close>

record outcome =
  state :: decorator
  calls :: "effect list"
  fault :: "error option"

definition ok :: "decorator \<Rightarrow> outcome" where
  "ok st = \<lparr>state = st, calls = [], fault = None\<rparr>"

definition call :: "decorator \<Rightarrow> effect \<Rightarrow> outcome" where
  "call st c = \<lparr>state = st, calls = [c], fault = None\<rparr>"

definition throw :: "decorator \<Rightarrow> error \<Rightarrow> outcome" where
  "throw st e = \<lparr>state = st, calls = [], fault = Some e\<rparr>"

text \<open>Statement sequencing: a fault skips everything after it.\<close>

definition andThen :: "outcome \<Rightarrow> (decorator \<Rightarrow> outcome) \<Rightarrow> outcome" where
  "andThen r f =
     (case fault r of
        Some e \<Rightarrow> r
      | None \<Rightarrow> (let r' = f (state r) in r'\<lparr>calls := calls r @ calls r'\<rparr>))"

subsection \<open>Host and library operations\<close>

definition lineCount :: "text_document \<Rightarrow> nat" where
  "lineCount d = length (text_lines d)"

definition lineRange :: "text_document \<Rightarrow> nat \<Rightarrow> text_range" where
  "lineRange d n = TextRange n 0 n (length (text_lines d ! n))"

definition lineAt :: "text_document \<Rightarrow> int \<Rightarrow> error + text_range" where
  "lineAt d n =
     (if 0 \<le> n \<and> n < int (lineCount d) then Inr (lineRange d (nat n)) else Inl IllegalLine)"

text \<open>
  \<^verbatim>\<open>path.basename\<close> on POSIX paths: trailing separators are dropped, then everything up
  to the last separator.
\<close>

definition basename :: "string \<Rightarrow> string" where
  "basename p =
     rev (takeWhile (\<lambda>c. c \<noteq> CHR ''/'') (dropWhile (\<lambda>c. c = CHR ''/'') (rev p)))"

definition endsWith :: "string \<Rightarrow> string \<Rightarrow> bool" where
  "endsWith s t = (length t \<le> length s \<and> drop (length s - length t) s = t)"

text \<open>Array indexing: out of range is \<^verbatim>\<open>undefined\<close>.\<close>

definition nth_opt :: "'a list \<Rightarrow> nat \<Rightarrow> 'a option" where
  "nth_opt xs n = (if n < length xs then Some (xs ! n) else None)"

definition srcEditorDocument :: "host \<Rightarrow> decorator \<Rightarrow> text_document" where
  "srcEditorDocument h st = documents h (editorDocument (editors h (srcEditor st)))"

definition asmEditorDocument :: "host \<Rightarrow> decorator \<Rightarrow> text_document" where
  "asmEditorDocument h st = documents h (editorDocument (editors h (asmEditor st)))"

subsection \<open>asmLineHasSource\<close>

text \<open>
  The argument is \<open>None\<close> when the caller passes \<^verbatim>\<open>undefined\<close>: then
  \<^verbatim>\<open>asmLine.source\<close> throws.
\<close>

definition asmLineHasSource :: "host \<Rightarrow> decorator \<Rightarrow> asm_line option \<Rightarrow> error + bool" where
  "asmLineHasSource h st asmLine =
     (let sourcePath = path (uri (srcEditorDocument h st)) in
      case asmLine of
        None \<Rightarrow> Inl TypeError
      | Some l \<Rightarrow>
          (case source l of
             None \<Rightarrow> Inr False
           | Some a \<Rightarrow>
               (let asmLineSourceBasename = basename (file_path a) in
                if \<not> endsWith sourcePath asmLineSourceBasename then Inr False else Inr True)))"

subsection \<open>loadMappings\<close>

text \<open>The callback of \<^verbatim>\<open>this.document.lines.forEach\<close>, for one line and its index.\<close>

definition loadMappingsLine :: "host \<Rightarrow> decorator \<Rightarrow> asm_line \<Rightarrow> nat \<Rightarrow> outcome" where
  "loadMappingsLine h st l index =
     (case asmLineHasSource h st (Some l) of
        Inl e \<Rightarrow> throw st e
      | Inr hasSource \<Rightarrow>
          if \<not> hasSource then ok st
          else
            (case source l of
               None \<Rightarrow> throw st TypeError
             | Some a \<Rightarrow>
                 (let sourceLine = line a - 1;
                      st1 = (if mappings st sourceLine = None
                             then st\<lparr>mappings := (mappings st)(sourceLine \<mapsto> [])\<rparr>
                             else st)
                  in case mappings st1 sourceLine of
                       None \<Rightarrow> throw st1 TypeError
                     | Some bucket \<Rightarrow>
                         ok (st1\<lparr>mappings := (mappings st1)(sourceLine \<mapsto> bucket @ [index])\<rparr>))))"

fun forEachLine :: "host \<Rightarrow> decorator \<Rightarrow> asm_line list \<Rightarrow> nat \<Rightarrow> outcome" where
  "forEachLine h st [] index = ok st"
| "forEachLine h st (l # ls) index =
     andThen (loadMappingsLine h st l index) (\<lambda>st'. forEachLine h st' ls (Suc index))"

definition loadMappings :: "host \<Rightarrow> decorator \<Rightarrow> outcome" where
  "loadMappings h st =
     (let st0 = st\<lparr>mappings := Map.empty\<rparr>
      in forEachLine h st0 (lines (document st0)) 0)"

subsection \<open>dimUnusedSourceLines\<close>

function unusedSourceLinesFrom ::
  "host \<Rightarrow> decorator \<Rightarrow> nat \<Rightarrow> text_range list \<Rightarrow> error + text_range list" where
  "unusedSourceLinesFrom h st n unusedSourceLines =
     (if n < lineCount (srcEditorDocument h st) then
        (if mappings st (int n) = None then
           (case lineAt (srcEditorDocument h st) (int n) of
              Inl e \<Rightarrow> Inl e
            | Inr r \<Rightarrow> unusedSourceLinesFrom h st (Suc n) (unusedSourceLines @ [r]))
         else unusedSourceLinesFrom h st (Suc n) unusedSourceLines)
      else Inr unusedSourceLines)"
  by pat_completeness auto
termination
  by (relation "measure (\<lambda>(h, st, n, acc). lineCount (srcEditorDocument h st) - n)") auto

declare unusedSourceLinesFrom.simps [simp del]

definition dimUnusedSourceLines :: "host \<Rightarrow> decorator \<Rightarrow> outcome" where
  "dimUnusedSourceLines h st =
     (case unusedSourceLinesFrom h st 0 [] of
        Inl e \<Rightarrow> throw st e
      | Inr unusedSourceLines \<Rightarrow>
          call st (SetDecorations (srcEditor st) UnusedLine unusedSourceLines))"

subsection \<open>load\<close>

definition load :: "host \<Rightarrow> decorator \<Rightarrow> uri \<Rightarrow> outcome" where
  "load h st u =
     andThen (\<lparr>state = st\<lparr>document := provideAsmDocument h u\<rparr>,
               calls = [ProvideAsmDocument u], fault = None\<rparr>) (\<lambda>st.
     andThen (loadMappings h st) (\<lambda>st.
       (let dimUnused = dimUnusedSetting h (uri (srcEditorDocument h st))
        in if dimUnused \<and> visible st then dimUnusedSourceLines h st else ok st)))"

subsection \<open>Selection handlers\<close>

text \<open>The callback of \<^verbatim>\<open>mapped.forEach\<close> in \<^verbatim>\<open>srcLineSelected\<close>, over the bucket.\<close>

fun forEachMapped ::
  "text_document \<Rightarrow> nat list \<Rightarrow> text_range list \<Rightarrow> error + text_range list" where
  "forEachMapped d [] asmLinesRanges = Inr asmLinesRanges"
| "forEachMapped d (n # rest) asmLinesRanges =
     (if n \<ge> lineCount d then forEachMapped d rest asmLinesRanges
      else
        (case lineAt d (int n) of
           Inl e \<Rightarrow> Inl e
         | Inr r \<Rightarrow> forEachMapped d rest (asmLinesRanges @ [r])))"

definition srcLineSelected :: "host \<Rightarrow> decorator \<Rightarrow> nat \<Rightarrow> outcome" where
  "srcLineSelected h st n =
     (case lineAt (srcEditorDocument h st) (int n) of
        Inl e \<Rightarrow> throw st e
      | Inr srcLineRange \<Rightarrow>
          andThen (call st (SetDecorations (srcEditor st) SelectedLine [srcLineRange])) (\<lambda>st.
            (case (case mappings st (int n) of
                     None \<Rightarrow> Inr []
                   | Some mapped \<Rightarrow> forEachMapped (asmEditorDocument h st) mapped []) of
               Inl e \<Rightarrow> throw st e
             | Inr asmLinesRanges \<Rightarrow>
                 andThen
                   (call st (SetDecorations (asmEditor st) SelectedLine asmLinesRanges)) (\<lambda>st.
                   (case asmLinesRanges of
                      [] \<Rightarrow> ok st
                    | r # _ \<Rightarrow>
                        call st (RevealRange (asmEditor st) r InCenterIfOutsideViewport))))))"

definition asmLineSelected :: "host \<Rightarrow> decorator \<Rightarrow> nat \<Rightarrow> outcome" where
  "asmLineSelected h st n =
     (let asmLine = nth_opt (lines (document st)) n in
      case lineAt (asmEditorDocument h st) (int n) of
        Inl e \<Rightarrow> throw st e
      | Inr asmLineRange \<Rightarrow>
          andThen (call st (SetDecorations (asmEditor st) SelectedLine [asmLineRange])) (\<lambda>st.
            (case asmLineHasSource h st asmLine of
               Inl e \<Rightarrow> throw st e
             | Inr hasSource \<Rightarrow>
                 if hasSource then
                   (case asmLine of
                      None \<Rightarrow> throw st TypeError
                    | Some l \<Rightarrow>
                        (case source l of
                           None \<Rightarrow> throw st TypeError
                         | Some a \<Rightarrow>
                             (case lineAt (srcEditorDocument h st) (line a - 1) of
                                Inl e \<Rightarrow> throw st e
                              | Inr srcLineRange \<Rightarrow>
                                  andThen
                                    (call st (SetDecorations (srcEditor st) SelectedLine
                                       [srcLineRange])) (\<lambda>st.
                                    call st (RevealRange (srcEditor st) srcLineRange
                                       InCenterIfOutsideViewport)))))
                 else call st (SetDecorations (srcEditor st) SelectedLine []))))"

text \<open>\<^verbatim>\<open>updateSelection\<close>, given the editor that raised the selection event.\<close>

definition updateSelection :: "host \<Rightarrow> decorator \<Rightarrow> nat \<Rightarrow> outcome" where
  "updateSelection h st editor =
     (if editor = srcEditor st then
        srcLineSelected h st (selectionStartLine (editors h (srcEditor st)))
      else if editor = asmEditor st then
        asmLineSelected h st (selectionStartLine (editors h (asmEditor st)))
      else ok st)"

subsection \<open>Visibility and provider events\<close>

definition updateVisibility :: "host \<Rightarrow> decorator \<Rightarrow> uri \<Rightarrow> bool \<Rightarrow> outcome" where
  "updateVisibility h st u vis =
     (if vis = visible st then ok st
      else
        (let st1 = st\<lparr>visible := vis\<rparr> in
         if vis then load h st1 u
         else
           andThen (call st1 (SetDecorations (asmEditor st1) SelectedLine [])) (\<lambda>st.
           andThen (call st (SetDecorations (srcEditor st) SelectedLine [])) (\<lambda>st.
           call st (SetDecorations (srcEditor st) UnusedLine [])))))"

text \<open>The callback registered with \<^verbatim>\<open>window.onDidChangeVisibleTextEditors\<close>.\<close>

definition onDidChangeVisibleTextEditors :: "host \<Rightarrow> decorator \<Rightarrow> nat list \<Rightarrow> outcome" where
  "onDidChangeVisibleTextEditors h st eds =
     (let srcEditor' = find (\<lambda>editor. editorDocument (editors h editor)
                                      = editorDocument (editors h (srcEditor st))) eds;
          asmEditor' = find (\<lambda>editor. editorDocument (editors h editor)
                                      = editorDocument (editors h (asmEditor st))) eds;
          st1 = st\<lparr>srcEditor := (case srcEditor' of Some e \<Rightarrow> e | None \<Rightarrow> srcEditor st)\<rparr>;
          st2 = st1\<lparr>asmEditor := (case asmEditor' of Some e \<Rightarrow> e | None \<Rightarrow> asmEditor st1)\<rparr>;
          vis = (srcEditor' \<noteq> None \<and> asmEditor' \<noteq> None)
      in updateVisibility h st2 (listingUri st2) vis)"

text \<open>The callback registered with \<^verbatim>\<open>provider.onDidChange\<close>.\<close>

definition onDidChange :: "host \<Rightarrow> decorator \<Rightarrow> uri \<Rightarrow> outcome" where
  "onDidChange h st changedUri =
     (if toString changedUri = toString (listingUri st) then load h st (listingUri st)
      else ok st)"

text \<open>
  The constructor, up to the first \<^verbatim>\<open>load\<close>. The field \<^verbatim>\<open>document\<close> is assigned by
  \<^verbatim>\<open>load\<close> before anything reads it; the record starts with an empty listing.
\<close>

definition constructor :: "host \<Rightarrow> nat \<Rightarrow> nat \<Rightarrow> outcome" where
  "constructor h srcEd asmEd =
     (let vis = (srcEd \<in> set (visibleTextEditors h) \<and> asmEd \<in> set (visibleTextEditors h));
          u = uri (documents h (editorDocument (editors h asmEd)))
      in load h \<lparr>srcEditor = srcEd, asmEditor = asmEd, listingUri = u,
                 document = \<lparr>lines = []\<rparr>, visible = vis, mappings = Map.empty\<rparr> u)"

section \<open>Notions of the specification\<close>

text \<open>
  The bucket of a source line: the list stored under the key, empty when the key is absent.
\<close>

definition bucket :: "(int \<Rightarrow> nat list option) \<Rightarrow> int \<Rightarrow> nat list" where
  "bucket m s = (case m s of None \<Rightarrow> [] | Some b \<Rightarrow> b)"

text \<open>
  In the specification's words: a listing line maps to source line \<open>s\<close> of the file \<open>F\<close> when
  it has an annotation whose file basename is a suffix of \<open>F\<close> and whose line minus 1 is \<open>s\<close>.
\<close>

definition spec_maps_to :: "string \<Rightarrow> asm_line \<Rightarrow> int \<Rightarrow> bool" where
  "spec_maps_to F l s =
     (case source l of
        None \<Rightarrow> False
      | Some a \<Rightarrow> endsWith F (basename (file_path a)) \<and> line a - 1 = s)"

text \<open>
  \<^verbatim>\<open>setDecorations\<close> replaces what an editor shows for a decoration type: after a run of
  calls an editor shows the ranges of the last call for that editor and type, and what it
  showed before when there was none.
\<close>

fun shown :: "effect list \<Rightarrow> nat \<Rightarrow> decoration_type \<Rightarrow> text_range list \<Rightarrow> text_range list" where
  "shown [] editor ty prev = prev"
| "shown (SetDecorations e t rs # cs) editor ty prev =
     shown cs editor ty (if e = editor \<and> t = ty then rs else prev)"
| "shown (RevealRange e r m # cs) editor ty prev = shown cs editor ty prev"
| "shown (ProvideAsmDocument u # cs) editor ty prev = shown cs editor ty prev"

section \<open>The scenario of the specification\<close>

text \<open>
  A source file \<^verbatim>\<open>/proj/a.c\<close> of 12 lines in editor 0 and its listing in editor 1, both
  visible. The listing has 4 lines, of which lines 1 and 2 come from line 3 of \<^verbatim>\<open>a.c\<close>
  and line 3 from line 10; the listing's text ends with a line break, so the listing view
  counts 5 lines.
\<close>

definition scenario_listing :: asm_document where
  "scenario_listing =
     \<lparr>lines = [\<lparr>source = None\<rparr>,
               \<lparr>source = Some \<lparr>file_path = ''a.c'', line = 3\<rparr>\<rparr>,
               \<lparr>source = Some \<lparr>file_path = ''a.c'', line = 3\<rparr>\<rparr>,
               \<lparr>source = Some \<lparr>file_path = ''a.c'', line = 10\<rparr>\<rparr>]\<rparr>"

definition scenario_source_view :: text_document where
  "scenario_source_view =
     \<lparr>uri = \<lparr>path = ''/proj/a.c'', toString = ''file:///proj/a.c''\<rparr>,
      text_lines = replicate 12 []\<rparr>"

definition scenario_listing_uri :: uri where
  "scenario_listing_uri = \<lparr>path = ''/proj/a.c.S'', toString = ''disassembly:/proj/a.c.S''\<rparr>"

definition scenario_listing_view :: "nat \<Rightarrow> text_document" where
  "scenario_listing_view n = \<lparr>uri = scenario_listing_uri, text_lines = replicate n []\<rparr>"

definition scenario_host :: host where
  "scenario_host =
     \<lparr>editors = (\<lambda>r. \<lparr>editorDocument = r, selectionStartLine = 0\<rparr>),
      documents = (\<lambda>r. if r = 0 then scenario_source_view else scenario_listing_view 5),
      visibleTextEditors = [0, 1],
      provideAsmDocument = (\<lambda>u. scenario_listing),
      dimUnusedSetting = (\<lambda>u. True)\<rparr>"

text \<open>The decorator for editors 0 and 1 once its constructor has run.\<close>

definition scenario_decorator :: decorator where
  "scenario_decorator = state (constructor scenario_host 0 1)"

text \<open>The listing view after it shrank to 2 lines, the index still that of 4 listing lines.\<close>

definition shrunk_host :: host where
  "shrunk_host =
     scenario_host\<lparr>documents := (\<lambda>r. if r = 0 then scenario_source_view
                                         else scenario_listing_view 2)\<rparr>"

text \<open>
  The pair with the listing's editor in the background: only editor 0 is visible, and its
  cursor is on line 2. The decorator is the one its constructor builds there.
\<close>

definition hidden_host :: host where
  "hidden_host =
     scenario_host\<lparr>visibleTextEditors := [0],
                   editors := (\<lambda>r. \<lparr>editorDocument = r, selectionStartLine = 2\<rparr>)\<rparr>"

definition hidden_decorator :: decorator where
  "hidden_decorator = state (constructor hidden_host 0 1)"

section \<open>Index build\<close>

lemma srcEditorDocument_mappings [simp]:
  "srcEditorDocument h (st\<lparr>mappings := m\<rparr>) = srcEditorDocument h st"
  by (simp add: srcEditorDocument_def)

lemma srcEditorDocument_document [simp]:
  "srcEditorDocument h (st\<lparr>document := d\<rparr>) = srcEditorDocument h st"
  by (simp add: srcEditorDocument_def)

lemma asmLineHasSource_mappings [simp]:
  "asmLineHasSource h (st\<lparr>mappings := m\<rparr>) x = asmLineHasSource h st x"
  by (simp add: asmLineHasSource_def)

lemma andThen_ok [simp]: "andThen (ok st) f = f st"
  by (simp add: andThen_def ok_def)

lemma asmLineHasSource_spec:
  "asmLineHasSource h st (Some l)
     = Inr (\<exists>s. spec_maps_to (path (uri (srcEditorDocument h st))) l s)"
  by (simp add: asmLineHasSource_def spec_maps_to_def split: option.splits)

text \<open>
  One round of the loop never faults, touches only the index, and appends the index of the
  line to the bucket the line maps to, if any.
\<close>

lemma loadMappingsLine_ok:
  "\<exists>m. loadMappingsLine h st l idx = ok (st\<lparr>mappings := m\<rparr>)
     \<and> (\<forall>s. bucket m s = bucket (mappings st) s
               @ (if spec_maps_to (path (uri (srcEditorDocument h st))) l s then [idx] else []))
     \<and> ((\<forall>s. mappings st s \<noteq> Some []) \<longrightarrow> (\<forall>s. m s \<noteq> Some []))"
proof (cases "source l")
  case None
  then have "loadMappingsLine h st l idx = ok (st\<lparr>mappings := mappings st\<rparr>)"
    by (simp add: loadMappingsLine_def asmLineHasSource_def)
  moreover have "\<forall>s. \<not> spec_maps_to (path (uri (srcEditorDocument h st))) l s"
    using None by (simp add: spec_maps_to_def)
  ultimately show ?thesis by (intro exI[of _ "mappings st"]) simp
next
  case (Some a)
  let ?F = "path (uri (srcEditorDocument h st))"
  show ?thesis
  proof (cases "endsWith ?F (basename (file_path a))")
    case False
    then have "loadMappingsLine h st l idx = ok (st\<lparr>mappings := mappings st\<rparr>)"
      using Some by (simp add: loadMappingsLine_def asmLineHasSource_def)
    moreover have "\<forall>s. \<not> spec_maps_to ?F l s"
      using Some False by (simp add: spec_maps_to_def)
    ultimately show ?thesis by (intro exI[of _ "mappings st"]) simp
  next
    case True
    let ?k = "line a - 1"
    let ?m = "(mappings st)(?k \<mapsto> bucket (mappings st) ?k @ [idx])"
    have "loadMappingsLine h st l idx = ok (st\<lparr>mappings := ?m\<rparr>)"
      using Some True
      by (cases "mappings st ?k")
         (simp_all add: loadMappingsLine_def asmLineHasSource_def bucket_def Let_def)
    moreover have "\<forall>s. bucket ?m s
        = bucket (mappings st) s @ (if spec_maps_to ?F l s then [idx] else [])"
      using Some True by (auto simp add: spec_maps_to_def bucket_def)
    moreover have "(\<forall>s. mappings st s \<noteq> Some []) \<longrightarrow> (\<forall>s. ?m s \<noteq> Some [])"
      by simp
    ultimately show ?thesis by blast
  qed
qed

lemma forEachLine_ok:
  "\<exists>m. forEachLine h st ls idx = ok (st\<lparr>mappings := m\<rparr>)
     \<and> (\<forall>s. bucket m s = bucket (mappings st) s
               @ map fst (filter (\<lambda>p. spec_maps_to (path (uri (srcEditorDocument h st))) (snd p) s)
                            (enumerate idx ls)))
     \<and> ((\<forall>s. mappings st s \<noteq> Some []) \<longrightarrow> (\<forall>s. m s \<noteq> Some []))"
proof (induction ls arbitrary: st idx)
  case Nil
  show ?case by (intro exI[of _ "mappings st"]) simp
next
  case (Cons l ls)
  let ?F = "path (uri (srcEditorDocument h st))"
  obtain m1 where m1: "loadMappingsLine h st l idx = ok (st\<lparr>mappings := m1\<rparr>)"
    and b1: "\<forall>s. bucket m1 s
               = bucket (mappings st) s @ (if spec_maps_to ?F l s then [idx] else [])"
    and n1: "(\<forall>s. mappings st s \<noteq> Some []) \<longrightarrow> (\<forall>s. m1 s \<noteq> Some [])"
    using loadMappingsLine_ok[of h st l idx] by blast
  obtain m2 where
        m2: "forEachLine h (st\<lparr>mappings := m1\<rparr>) ls (Suc idx)
               = ok (st\<lparr>mappings := m1, mappings := m2\<rparr>)"
    and b2: "\<forall>s. bucket m2 s = bucket m1 s
               @ map fst (filter (\<lambda>p. spec_maps_to ?F (snd p) s) (enumerate (Suc idx) ls))"
    and n2: "(\<forall>s. m1 s \<noteq> Some []) \<longrightarrow> (\<forall>s. m2 s \<noteq> Some [])"
    using Cons.IH[of "st\<lparr>mappings := m1\<rparr>" "Suc idx"] by auto
  have "forEachLine h st (l # ls) idx = ok (st\<lparr>mappings := m2\<rparr>)"
    using m1 m2 by simp
  moreover have "\<forall>s. bucket m2 s = bucket (mappings st) s
               @ map fst (filter (\<lambda>p. spec_maps_to ?F (snd p) s) (enumerate idx (l # ls)))"
    using b1 b2 by simp
  moreover have "(\<forall>s. mappings st s \<noteq> Some []) \<longrightarrow> (\<forall>s. m2 s \<noteq> Some [])"
    using n1 n2 by blast
  ultimately show ?case by blast
qed

lemma enumerate_filter_nth:
  "map fst (filter (\<lambda>p. P (snd p)) (enumerate 0 xs)) = filter (\<lambda>i. P (xs ! i)) [0..<length xs]"
proof (induction xs rule: rev_induct)
  case Nil
  show ?case by simp
next
  case (snoc x xs)
  have "filter (\<lambda>i. P ((xs @ [x]) ! i)) [0..<length xs] = filter (\<lambda>i. P (xs ! i)) [0..<length xs]"
    by (rule filter_cong) (auto simp: nth_append)
  then show ?case using snoc by (simp add: enumerate_append_eq)
qed

text \<open>
  The rebuild as a whole: no fault, no call, only the index changes, every bucket is the
  ascending list of the listing indices that map to its key, and no bucket is empty.
\<close>

lemma loadMappings_ok:
  "\<exists>m. loadMappings h st = ok (st\<lparr>mappings := m\<rparr>)
     \<and> (\<forall>s. bucket m s
            = filter (\<lambda>i. spec_maps_to (path (uri (srcEditorDocument h st)))
                            (lines (document st) ! i) s) [0..<length (lines (document st))])
     \<and> (\<forall>s. m s \<noteq> Some [])"
proof -
  let ?st0 = "st\<lparr>mappings := Map.empty\<rparr>"
  obtain m where
        m: "forEachLine h ?st0 (lines (document st)) 0 = ok (?st0\<lparr>mappings := m\<rparr>)"
    and b: "\<forall>s. bucket m s = bucket (mappings ?st0) s
               @ map fst (filter (\<lambda>p. spec_maps_to (path (uri (srcEditorDocument h ?st0))) (snd p) s)
                            (enumerate 0 (lines (document st))))"
    and n: "(\<forall>s. mappings ?st0 s \<noteq> Some []) \<longrightarrow> (\<forall>s. m s \<noteq> Some [])"
    using forEachLine_ok[of h ?st0 "lines (document st)" 0] by blast
  have "loadMappings h st = ok (st\<lparr>mappings := m\<rparr>)"
    using m by (simp add: loadMappings_def)
  moreover have "\<forall>s. bucket m s
            = filter (\<lambda>i. spec_maps_to (path (uri (srcEditorDocument h st)))
                            (lines (document st) ! i) s) [0..<length (lines (document st))]"
    using b
      enumerate_filter_nth[of "\<lambda>l. spec_maps_to (path (uri (srcEditorDocument h st))) l s"
        "lines (document st)" for s]
    by (simp add: bucket_def)
  moreover have "\<forall>s. m s \<noteq> Some []"
    using n by simp
  ultimately show ?thesis by blast
qed

lemma loadMappings_forgets_index [simp]:
  "loadMappings h (st\<lparr>mappings := m\<rparr>) = loadMappings h st"
  by (simp add: loadMappings_def)

lemma loadMappings_forgets_index_document [simp]:
  "loadMappings h (st\<lparr>mappings := m, document := d\<rparr>) = loadMappings h (st\<lparr>document := d\<rparr>)"
  by (simp add: loadMappings_def)

text \<open>With no empty bucket, a key is absent exactly when no listing line maps to it.\<close>

lemma mappings_None_iff:
  assumes "\<forall>s. bucket m s = filter (\<lambda>i. P (ls ! i) s) [0..<length ls]"
      and "\<forall>s. m s \<noteq> Some []"
  shows "m k = None \<longleftrightarrow> \<not> list_ex (\<lambda>l. P l k) ls"
proof -
  have "m k = None \<longleftrightarrow> bucket m k = []"
    using assms(2) by (auto simp: bucket_def split: option.splits)
  also have "\<dots> \<longleftrightarrow> (\<forall>i<length ls. \<not> P (ls ! i) k)"
    using assms(1) by (auto simp: filter_empty_conv)
  also have "\<dots> \<longleftrightarrow> \<not> list_ex (\<lambda>l. P l k) ls"
    unfolding list_ex_iff by (metis in_set_conv_nth)
  finally show ?thesis .
qed

text \<open>The loop of \<^verbatim>\<open>dimUnusedSourceLines\<close> collects the lines without a key, in order.\<close>

lemma unusedSourceLinesFrom_eq:
  "unusedSourceLinesFrom h st n acc
     = Inr (acc @ map (lineRange (srcEditorDocument h st))
                    (filter (\<lambda>k. mappings st (int k) = None)
                       [n..<lineCount (srcEditorDocument h st)]))"
proof (induction h st n acc rule: unusedSourceLinesFrom.induct)
  case (1 h st n acc)
  show ?case
  proof (cases "n < lineCount (srcEditorDocument h st)")
    case False
    then show ?thesis by (simp add: unusedSourceLinesFrom.simps[of h st n acc])
  next
    case True
    then have at: "lineAt (srcEditorDocument h st) (int n)
                     = Inr (lineRange (srcEditorDocument h st) n)"
      by (simp add: lineAt_def)
    show ?thesis
    proof (cases "mappings st (int n) = None")
      case None: True
      show ?thesis
        using True None at "1.IH"(1)[OF True None at]
        by (simp add: unusedSourceLinesFrom.simps[of h st n acc] upt_conv_Cons)
    next
      case False
      show ?thesis
        using True "1.IH"(2)[OF True False]
        by (simp add: False unusedSourceLinesFrom.simps[of h st n acc] upt_conv_Cons)
    qed
  qed
qed

subsection \<open>The scenario, evaluated\<close>

lemmas scenario_defs = scenario_host_def scenario_listing_def scenario_source_view_def
  scenario_listing_uri_def scenario_listing_view_def

lemma scenario_source_maps:
  "spec_maps_to ''/proj/a.c'' \<lparr>source = Some \<lparr>file_path = ''a.c'', line = n\<rparr>\<rparr> s = (n - 1 = s)"
  "spec_maps_to F \<lparr>source = None\<rparr> s = False"
  by (simp_all add: spec_maps_to_def basename_def endsWith_def)

lemma upt_4: "[0..<4] = [0, 1, 2, Suc 2]"
  by (simp add: upt_rec numeral_eq_Suc)

lemma scenario_lineCount:
  "lineCount scenario_source_view = 12"
  "lineCount (scenario_listing_view n) = n"
  by (simp_all add: lineCount_def scenario_source_view_def scenario_listing_view_def)

lemma scenario_lineRange:
  "k < 12 \<Longrightarrow> lineRange scenario_source_view k = TextRange k 0 k 0"
  "k < n \<Longrightarrow> lineRange (scenario_listing_view n) k = TextRange k 0 k 0"
  by (simp_all add: lineRange_def scenario_source_view_def scenario_listing_view_def)

section \<open>Reload\<close>

text \<open>
  \<^verbatim>\<open>load\<close> in one equation: it never faults, stores the provider's listing and the index
  built from it, and calls \<^verbatim>\<open>setDecorations\<close> for the unused lines when the setting is on
  and the pair is visible.
\<close>

lemma load_ok:
  "\<exists>m. load h st u =
         \<lparr>state = st\<lparr>document := provideAsmDocument h u, mappings := m\<rparr>,
          calls = ProvideAsmDocument u #
            (if dimUnusedSetting h (uri (srcEditorDocument h st)) \<and> visible st
             then [SetDecorations (srcEditor st) UnusedLine
                     (map (lineRange (srcEditorDocument h st))
                        (filter (\<lambda>n. \<not> list_ex (\<lambda>l. spec_maps_to
                                                        (path (uri (srcEditorDocument h st))) l (int n))
                                          (lines (provideAsmDocument h u)))
                           [0..<lineCount (srcEditorDocument h st)]))]
             else []),
          fault = None\<rparr>
     \<and> loadMappings h (st\<lparr>document := provideAsmDocument h u\<rparr>)
           = ok (st\<lparr>document := provideAsmDocument h u, mappings := m\<rparr>)
     \<and> (\<forall>s. bucket m s
            = filter (\<lambda>i. spec_maps_to (path (uri (srcEditorDocument h st)))
                            (lines (provideAsmDocument h u) ! i) s)
                [0..<length (lines (provideAsmDocument h u))])
     \<and> (\<forall>s. m s \<noteq> Some [])"
proof -
  let ?D = "provideAsmDocument h u"
  let ?st1 = "st\<lparr>document := ?D\<rparr>"
  let ?F = "path (uri (srcEditorDocument h st))"
  obtain m where m: "loadMappings h ?st1 = ok (?st1\<lparr>mappings := m\<rparr>)"
    and b: "\<forall>s. bucket m s = filter (\<lambda>i. spec_maps_to ?F (lines ?D ! i) s) [0..<length (lines ?D)]"
    and n: "\<forall>s. m s \<noteq> Some []"
    using loadMappings_ok[of h ?st1] by auto
  have none: "\<And>k. (m (int k) = None) = (\<not> list_ex (\<lambda>l. spec_maps_to ?F l (int k)) (lines ?D))"
    using mappings_None_iff[of m "spec_maps_to ?F" "lines ?D", OF b n] by simp
  have "load h st u =
         \<lparr>state = st\<lparr>document := ?D, mappings := m\<rparr>,
          calls = ProvideAsmDocument u #
            (if dimUnusedSetting h (uri (srcEditorDocument h st)) \<and> visible st
             then [SetDecorations (srcEditor st) UnusedLine
                     (map (lineRange (srcEditorDocument h st))
                        (filter (\<lambda>n. \<not> list_ex (\<lambda>l. spec_maps_to ?F l (int n)) (lines ?D))
                           [0..<lineCount (srcEditorDocument h st)]))]
             else []),
          fault = None\<rparr>"
    using m
    by (simp add: load_def andThen_def ok_def call_def dimUnusedSourceLines_def
          unusedSourceLinesFrom_eq none)
  then show ?thesis using m b n by auto
qed

lemma load_forgets [simp]:
  "load h (st\<lparr>document := d, mappings := m\<rparr>) u = load h st u"
  by (simp add: load_def andThen_def Let_def split: option.splits)

lemma load_fields:
  "srcEditor (state (load h st u)) = srcEditor st"
  "asmEditor (state (load h st u)) = asmEditor st"
  "listingUri (state (load h st u)) = listingUri st"
  "visible (state (load h st u)) = visible st"
  "document (state (load h st u)) = provideAsmDocument h u"
  "fault (load h st u) = None"
  using load_ok[of h st u] by auto

lemma load_bucket:
  "bucket (mappings (state (load h st u))) s
     = filter (\<lambda>i. spec_maps_to (path (uri (srcEditorDocument h st)))
                     (lines (provideAsmDocument h u) ! i) s)
         [0..<length (lines (provideAsmDocument h u))]"
  using load_ok[of h st u] by auto

lemma load_mappings:
  "mappings (state (load h st u)) s
     = (case bucket (mappings (state (load h st u))) s of [] \<Rightarrow> None | i # is \<Rightarrow> Some (i # is))"
proof -
  obtain m where "mappings (state (load h st u)) = m" and "\<forall>s. m s \<noteq> Some []"
    using load_ok[of h st u] by auto
  then show ?thesis
    by (auto simp: bucket_def split: option.splits list.splits)
qed

subsection \<open>The decorators of the scenario\<close>

lemma scenario_decorator_fields:
  "srcEditor scenario_decorator = 0"
  "asmEditor scenario_decorator = 1"
  "listingUri scenario_decorator = scenario_listing_uri"
  "visible scenario_decorator = True"
  "document scenario_decorator = scenario_listing"
  by (simp_all add: scenario_decorator_def constructor_def load_fields Let_def)
     (simp_all add: scenario_defs)

lemma scenario_decorator_bucket:
  "bucket (mappings scenario_decorator) s = (if s = 2 then [1, 2] else if s = 9 then [Suc 2] else [])"
  by (simp add: scenario_decorator_def constructor_def load_bucket Let_def)
     (simp add: scenario_defs srcEditorDocument_def scenario_source_maps upt_4)

lemma scenario_decorator_mappings:
  "mappings scenario_decorator 2 = Some [1, 2]"
  "mappings scenario_decorator 9 = Some [3]"
  "mappings scenario_decorator 5 = None"
  using scenario_decorator_bucket[of 2] scenario_decorator_bucket[of 9]
    scenario_decorator_bucket[of 5]
  by (simp_all add: scenario_decorator_def constructor_def Let_def load_mappings[of _ _ _ 2]
        load_mappings[of _ _ _ 9] load_mappings[of _ _ _ 5] numeral_3_eq_3)

lemma scenario_documents:
  "srcEditorDocument scenario_host scenario_decorator = scenario_source_view"
  "asmEditorDocument scenario_host scenario_decorator = scenario_listing_view 5"
  by (simp_all add: srcEditorDocument_def asmEditorDocument_def scenario_decorator_fields
        scenario_host_def)

lemma shrunk_documents:
  "srcEditorDocument shrunk_host scenario_decorator = scenario_source_view"
  "asmEditorDocument shrunk_host scenario_decorator = scenario_listing_view 2"
  by (simp_all add: srcEditorDocument_def asmEditorDocument_def scenario_decorator_fields
        scenario_host_def shrunk_host_def)

lemma hidden_decorator_fields:
  "srcEditor hidden_decorator = 0"
  "asmEditor hidden_decorator = 1"
  "visible hidden_decorator = False"
  by (simp_all add: hidden_decorator_def constructor_def load_fields Let_def)
     (simp_all add: hidden_host_def scenario_defs)

lemma hidden_decorator_bucket:
  "bucket (mappings hidden_decorator) 2 = [1, 2]"
  by (simp add: hidden_decorator_def constructor_def load_bucket Let_def)
     (simp add: hidden_host_def scenario_defs srcEditorDocument_def scenario_source_maps upt_4)

lemma hidden_documents:
  "srcEditorDocument hidden_host hidden_decorator = scenario_source_view"
  "asmEditorDocument hidden_host hidden_decorator = scenario_listing_view 5"
  by (simp_all add: srcEditorDocument_def asmEditorDocument_def hidden_decorator_fields
        scenario_host_def hidden_host_def)

section \<open>The index after a rebuild\<close>



text \<open>
  C10 (non-empty buckets). After \<^verbatim>\<open>loadMappings\<close> no key of the index holds the empty
  list, and \<^verbatim>\<open>dimUnusedSourceLines\<close> then dims exactly the lines of the source view, from 0
  up to its line count, to which no listing line maps.
\<close>

theorem C10_nonempty_buckets:
  "mappings (state (loadMappings h st)) k \<noteq> Some []
   \<and> dimUnusedSourceLines h (state (loadMappings h st))
      = \<lparr>state = state (loadMappings h st),
         calls = [SetDecorations (srcEditor st) UnusedLine
                    (map (lineRange (srcEditorDocument h st))
                       (filter (\<lambda>n. \<not> list_ex (\<lambda>l. spec_maps_to
                                                       (path (uri (srcEditorDocument h st))) l (int n))
                                         (lines (document st)))
                          [0..<lineCount (srcEditorDocument h st)]))],
         fault = None\<rparr>"
proof -
  let ?F = "path (uri (srcEditorDocument h st))"
  obtain m where m: "loadMappings h st = ok (st\<lparr>mappings := m\<rparr>)"
    and b: "\<forall>s. bucket m s
            = filter (\<lambda>i. spec_maps_to ?F (lines (document st) ! i) s)
                [0..<length (lines (document st))]"
    and n: "\<forall>s. m s \<noteq> Some []"
    using loadMappings_ok[of h st] by blast
  have none: "\<And>k. (m (int k) = None)
                   = (\<not> list_ex (\<lambda>l. spec_maps_to ?F l (int k)) (lines (document st)))"
    using mappings_None_iff[of m "spec_maps_to ?F" "lines (document st)", OF b n] by simp
  show ?thesis
    using m n
    by (simp add: ok_def call_def dimUnusedSourceLines_def unusedSourceLinesFrom_eq none)
qed

lemma upt_12: "[0..<12] = [0, 1, 2, 3, 4, 5, 6, 7, 8, 9, 10, 11::nat]"
  by code_simp

text \<open>
  In the scenario the bucket of line 2 is not empty, and all of lines 0 to 11 but 2 and 9
  are dimmed.
\<close>

theorem C10_nonempty_buckets_witness:
  "mappings (state (loadMappings scenario_host scenario_decorator)) 2 \<noteq> Some []
   \<and> calls (dimUnusedSourceLines scenario_host (state (loadMappings scenario_host scenario_decorator)))
      = [SetDecorations 0 UnusedLine
           (map (\<lambda>k. TextRange k 0 k 0) [0, 1, 3, 4, 5, 6, 7, 8, 10, 11])]"
  using C10_nonempty_buckets[of scenario_host scenario_decorator 2]
  by (simp add: scenario_documents scenario_decorator_fields scenario_lineCount upt_12
        scenario_lineRange)
     (simp add: scenario_listing_def scenario_source_view_def scenario_source_maps)

section \<open>Provider changes and reloads\<close>

text \<open>
  C6 (provider-change gating). The callback of \<^verbatim>\<open>provider.onDidChange\<close> asks the provider
  for the listing exactly when the changed uri and the tracked listing uri have the same
  string form. It then stores the new listing and rebuilds the index from it whatever the
  visibility is, and applies the dimming only when the pair is visible and the setting is
  on. Otherwise it leaves listing and index alone and issues no call. It never faults.
\<close>

theorem C6_provider_change_gating:
  "(ProvideAsmDocument (listingUri st) \<in> set (calls (onDidChange h st c)))
      = (toString c = toString (listingUri st))
   \<and> fault (onDidChange h st c) = None
   \<and> visible (state (onDidChange h st c)) = visible st
   \<and> document (state (onDidChange h st c))
      = (if toString c = toString (listingUri st) then provideAsmDocument h (listingUri st)
         else document st)
   \<and> bucket (mappings (state (onDidChange h st c))) s
      = (if toString c = toString (listingUri st)
         then filter (\<lambda>i. spec_maps_to (path (uri (srcEditorDocument h st)))
                             (lines (provideAsmDocument h (listingUri st)) ! i) s)
                [0..<length (lines (provideAsmDocument h (listingUri st)))]
         else bucket (mappings st) s)
   \<and> calls (onDidChange h st c)
      = (if toString c = toString (listingUri st)
         then ProvideAsmDocument (listingUri st) #
              (if dimUnusedSetting h (uri (srcEditorDocument h st)) \<and> visible st
               then [SetDecorations (srcEditor st) UnusedLine
                       (map (lineRange (srcEditorDocument h st))
                          (filter (\<lambda>n. \<not> list_ex (\<lambda>l. spec_maps_to
                                                          (path (uri (srcEditorDocument h st))) l (int n))
                                            (lines (provideAsmDocument h (listingUri st))))
                             [0..<lineCount (srcEditorDocument h st)]))]
               else [])
         else [])"
proof (cases "toString c = toString (listingUri st)")
  case False
  then show ?thesis by (simp add: onDidChange_def ok_def)
next
  case True
  then have "onDidChange h st c = load h st (listingUri st)"
    by (simp add: onDidChange_def)
  then show ?thesis
    using True load_ok[of h st "listingUri st"] by auto
qed

text \<open>
  In the scenario a change of the listing's uri reloads, with and without visibility (the
  dimming only with it), and a change of the source's uri does nothing.
\<close>

theorem C6_provider_change_gating_witness:
  "calls (onDidChange scenario_host scenario_decorator scenario_listing_uri)
     = [ProvideAsmDocument scenario_listing_uri,
        SetDecorations 0 UnusedLine
          (map (\<lambda>k. TextRange k 0 k 0) [0, 1, 3, 4, 5, 6, 7, 8, 10, 11])]
   \<and> calls (onDidChange scenario_host (scenario_decorator\<lparr>visible := False\<rparr>) scenario_listing_uri)
     = [ProvideAsmDocument scenario_listing_uri]
   \<and> bucket (mappings (state (onDidChange scenario_host (scenario_decorator\<lparr>visible := False\<rparr>)
                                 scenario_listing_uri))) 2 = [1, 2]
   \<and> calls (onDidChange scenario_host scenario_decorator (uri scenario_source_view)) = []"
proof -
  have d: "srcEditorDocument scenario_host (scenario_decorator\<lparr>visible := False\<rparr>)
             = scenario_source_view"
          "provideAsmDocument scenario_host u = scenario_listing"
          "dimUnusedSetting scenario_host u' = True" for u u'
    by (simp_all add: srcEditorDocument_def scenario_decorator_fields scenario_host_def)
  have s: "toString (uri scenario_source_view) \<noteq> toString scenario_listing_uri"
    by (simp add: scenario_source_view_def scenario_listing_uri_def)
  show ?thesis
    using C6_provider_change_gating[of scenario_decorator scenario_host scenario_listing_uri 2]
      C6_provider_change_gating[of "scenario_decorator\<lparr>visible := False\<rparr>" scenario_host
        scenario_listing_uri 2]
      C6_provider_change_gating[of scenario_decorator scenario_host "uri scenario_source_view" 2]
    by (simp add: scenario_documents scenario_decorator_fields scenario_lineCount upt_12
          scenario_lineRange d s)
       (simp add: scenario_listing_def scenario_source_view_def scenario_source_maps upt_4)
qed

text \<open>
  C7 (reload idempotence). With the same host, that is the same listing from the provider
  and the same source view, a second \<^verbatim>\<open>load\<close> right after the first ends like the first:
  same fields, so the same index, the same calls and the same unused lines.
\<close>

theorem C7_reload_idempotent:
  "load h (state (load h st u)) u = load h st u
   \<and> mappings (state (load h (state (load h st u)) u)) = mappings (state (load h st u))
   \<and> unusedSourceLinesFrom h (state (load h (state (load h st u)) u)) 0 []
      = unusedSourceLinesFrom h (state (load h st u)) 0 []"
proof -
  obtain m where "state (load h st u) = st\<lparr>document := provideAsmDocument h u, mappings := m\<rparr>"
    using load_ok[of h st u] by auto
  then have "load h (state (load h st u)) u = load h st u"
    by simp
  then show ?thesis by simp
qed

section \<open>Selections\<close>

lemma forEachMapped_eq:
  "forEachMapped d ns acc
     = Inr (acc @ map (lineRange d) (filter (\<lambda>i. i < lineCount d) ns))"
  by (induction ns arbitrary: acc) (simp_all add: lineAt_def)

lemma shown_append:
  "shown (cs @ ds) editor ty prev = shown ds editor ty (shown cs editor ty prev)"
  by (induction cs editor ty prev rule: shown.induct) simp_all

text \<open>\<^verbatim>\<open>srcLineSelected\<close> on a line of the source view, in one equation.\<close>

lemma srcLineSelected_eq:
  assumes "n < lineCount (srcEditorDocument h st)"
  shows "srcLineSelected h st n =
     \<lparr>state = st,
      calls = [SetDecorations (srcEditor st) SelectedLine [lineRange (srcEditorDocument h st) n],
               SetDecorations (asmEditor st) SelectedLine
                 (map (lineRange (asmEditorDocument h st))
                    (filter (\<lambda>i. i < lineCount (asmEditorDocument h st))
                       (bucket (mappings st) (int n))))]
              @ (case filter (\<lambda>i. i < lineCount (asmEditorDocument h st))
                        (bucket (mappings st) (int n)) of
                   [] \<Rightarrow> []
                 | i # _ \<Rightarrow> [RevealRange (asmEditor st) (lineRange (asmEditorDocument h st) i)
                               InCenterIfOutsideViewport]),
      fault = None\<rparr>"
  using assms
  by (simp add: srcLineSelected_def lineAt_def andThen_def call_def ok_def throw_def
        forEachMapped_eq bucket_def split: option.splits list.splits)

lemma asmLineSelected_undefined:
  assumes "length (lines (document st)) \<le> n" and "n < lineCount (asmEditorDocument h st)"
  shows "asmLineSelected h st n =
           \<lparr>state = st,
            calls = [SetDecorations (asmEditor st) SelectedLine
                       [lineRange (asmEditorDocument h st) n]],
            fault = Some TypeError\<rparr>"
  using assms
  by (simp add: asmLineSelected_def nth_opt_def lineAt_def andThen_def call_def throw_def
        asmLineHasSource_def)

lemma asmLineSelected_no_fault:
  assumes "fault (asmLineSelected h st n) = None"
  shows "n < length (lines (document st))"
proof (rule ccontr)
  assume "\<not> n < length (lines (document st))"
  then have "nth_opt (lines (document st)) n = None"
    by (simp add: nth_opt_def)
  then have "fault (asmLineSelected h st n) \<noteq> None"
    by (simp add: asmLineSelected_def andThen_def call_def throw_def asmLineHasSource_def
          split: sum.splits)
  then show False using assms by simp
qed

lemma asmLineSelected_has_source:
  assumes "n < lineCount (asmEditorDocument h st)"
      and "nth_opt (lines (document st)) n = Some l"
      and "spec_maps_to (path (uri (srcEditorDocument h st))) l (int s)"
      and "s < lineCount (srcEditorDocument h st)"
  shows "asmLineSelected h st n =
           \<lparr>state = st,
            calls = [SetDecorations (asmEditor st) SelectedLine
                       [lineRange (asmEditorDocument h st) n],
                     SetDecorations (srcEditor st) SelectedLine
                       [lineRange (srcEditorDocument h st) s],
                     RevealRange (srcEditor st) (lineRange (srcEditorDocument h st) s)
                       InCenterIfOutsideViewport],
            fault = None\<rparr>"
proof -
  obtain a where a: "source l = Some a"
    and e: "endsWith (path (uri (srcEditorDocument h st))) (basename (file_path a))"
    and k: "line a - 1 = int s"
    using assms(3) by (auto simp: spec_maps_to_def split: option.splits)
  show ?thesis
    using assms(1,2,4) a e k
    by (simp add: asmLineSelected_def lineAt_def andThen_def call_def throw_def
          asmLineHasSource_def)
qed

text \<open>
  C4 (no mapping clears the listing view). When line \<open>n\<close> of the source view has no key in
  the index, \<^verbatim>\<open>srcLineSelected\<close> highlights the line in the source view, sets the listing
  view's selected decoration to the empty list, whatever it showed before, and reveals
  nothing.
\<close>

theorem C4_no_mapping_clears_listing:
  assumes "n < lineCount (srcEditorDocument h st)"
      and "mappings st (int n) = None"
  shows "srcLineSelected h st n =
           \<lparr>state = st,
            calls = [SetDecorations (srcEditor st) SelectedLine
                       [lineRange (srcEditorDocument h st) n],
                     SetDecorations (asmEditor st) SelectedLine []],
            fault = None\<rparr>
         \<and> shown (calls (srcLineSelected h st n)) (asmEditor st) SelectedLine prev = []"
  using assms by (simp add: srcLineSelected_eq bucket_def)

text \<open>In the scenario, selecting source line 5 clears a highlight of listing lines 1 and 2.\<close>

theorem C4_no_mapping_clears_listing_witness:
  "srcLineSelected scenario_host scenario_decorator 5 =
     \<lparr>state = scenario_decorator,
      calls = [SetDecorations 0 SelectedLine [TextRange 5 0 5 0],
               SetDecorations 1 SelectedLine []],
      fault = None\<rparr>
   \<and> shown (calls (srcLineSelected scenario_host scenario_decorator 5)) 1 SelectedLine
         [TextRange 1 0 1 0, TextRange 2 0 2 0] = []"
  using C4_no_mapping_clears_listing[of 5 scenario_host scenario_decorator
          "[TextRange 1 0 1 0, TextRange 2 0 2 0]"]
  by (simp add: scenario_documents scenario_lineCount scenario_lineRange
        scenario_decorator_mappings scenario_decorator_fields)

text \<open>
  C5 (stale-index tolerance). When line \<open>n\<close> of the source view has the bucket \<open>mapped\<close>,
  \<^verbatim>\<open>srcLineSelected\<close> does not fault, and one \<^verbatim>\<open>setDecorations\<close> call gives the listing
  view the ranges of the entries below its current line count, in bucket order: an entry
  at or past the line count is left out and every other entry is kept. The first kept entry
  is revealed.
\<close>

theorem C5_stale_index_tolerance:
  assumes "n < lineCount (srcEditorDocument h st)"
      and "mappings st (int n) = Some mapped"
  shows "srcLineSelected h st n =
     \<lparr>state = st,
      calls = [SetDecorations (srcEditor st) SelectedLine [lineRange (srcEditorDocument h st) n],
               SetDecorations (asmEditor st) SelectedLine
                 (map (lineRange (asmEditorDocument h st))
                    (filter (\<lambda>i. i < lineCount (asmEditorDocument h st)) mapped))]
              @ (case filter (\<lambda>i. i < lineCount (asmEditorDocument h st)) mapped of
                   [] \<Rightarrow> []
                 | i # _ \<Rightarrow> [RevealRange (asmEditor st) (lineRange (asmEditorDocument h st) i)
                               InCenterIfOutsideViewport]),
      fault = None\<rparr>"
  using assms by (simp add: srcLineSelected_eq bucket_def)

text \<open>
  With the listing view down to 2 lines and the bucket \<open>[1, 2]\<close> of source line 2, entry 2 is
  left out and entry 1 is highlighted and revealed.
\<close>

theorem C5_stale_index_tolerance_witness:
  "srcLineSelected shrunk_host scenario_decorator 2 =
     \<lparr>state = scenario_decorator,
      calls = [SetDecorations 0 SelectedLine [TextRange 2 0 2 0],
               SetDecorations 1 SelectedLine [TextRange 1 0 1 0],
               RevealRange 1 (TextRange 1 0 1 0) InCenterIfOutsideViewport],
      fault = None\<rparr>"
  using C5_stale_index_tolerance[of 2 shrunk_host scenario_decorator "[1, 2]"]
  by (simp add: shrunk_documents scenario_lineCount scenario_lineRange
        scenario_decorator_mappings scenario_decorator_fields)

text \<open>
  C3 (round-trip locality). Let line \<open>s\<close> of the source view have the bucket \<open>i0 # rest\<close>, let
  \<open>i0\<close> be a line of the listing view, and let line \<open>i0\<close> of the cached listing be annotated
  with a file whose basename ends the source path and with line \<open>s + 1\<close>. Then
  \<^verbatim>\<open>srcLineSelected\<close> on \<open>s\<close> followed by \<^verbatim>\<open>asmLineSelected\<close> on \<open>i0\<close> runs without a
  fault, and the source view ends with exactly line \<open>s\<close> as its selected decoration.
\<close>

theorem C3_round_trip:
  assumes "s < lineCount (srcEditorDocument h st)"
      and "mappings st (int s) = Some (i0 # rest)"
      and "i0 < lineCount (asmEditorDocument h st)"
      and "nth_opt (lines (document st)) i0 = Some l"
      and "spec_maps_to (path (uri (srcEditorDocument h st))) l (int s)"
  shows "fault (srcLineSelected h st s) = None
       \<and> fault (asmLineSelected h (state (srcLineSelected h st s)) i0) = None
       \<and> shown (calls (srcLineSelected h st s)
                 @ calls (asmLineSelected h (state (srcLineSelected h st s)) i0))
            (srcEditor st) SelectedLine prev
          = [lineRange (srcEditorDocument h st) s]"
proof -
  have 1: "fault (srcLineSelected h st s) = None" "state (srcLineSelected h st s) = st"
    using assms(1) by (simp_all add: srcLineSelected_eq)
  have 2: "asmLineSelected h st i0 =
           \<lparr>state = st,
            calls = [SetDecorations (asmEditor st) SelectedLine
                       [lineRange (asmEditorDocument h st) i0],
                     SetDecorations (srcEditor st) SelectedLine
                       [lineRange (srcEditorDocument h st) s],
                     RevealRange (srcEditor st) (lineRange (srcEditorDocument h st) s)
                       InCenterIfOutsideViewport],
            fault = None\<rparr>"
    using asmLineSelected_has_source[OF assms(3,4,5,1)] .
  have 3: "shown (cs @ calls (asmLineSelected h st i0)) (srcEditor st) SelectedLine prev
             = [lineRange (srcEditorDocument h st) s]" for cs
    unfolding 2 by (simp add: shown_append)
  show ?thesis using 1 2 3 by simp
qed

text \<open>
  In the scenario, selecting source line 2 and then listing line 1, the head of its bucket,
  leaves source line 2 highlighted.
\<close>

theorem C3_round_trip_witness:
  "shown (calls (srcLineSelected scenario_host scenario_decorator 2)
            @ calls (asmLineSelected scenario_host
                       (state (srcLineSelected scenario_host scenario_decorator 2)) 1))
     0 SelectedLine [] = [TextRange 2 0 2 0]"
  using C3_round_trip[of 2 scenario_host scenario_decorator 1 "[2]"
          "\<lparr>source = Some \<lparr>file_path = ''a.c'', line = 3\<rparr>\<rparr>" "[]"]
  by (simp add: scenario_documents scenario_lineCount scenario_lineRange
        scenario_decorator_mappings scenario_decorator_fields)
     (simp add: scenario_source_view_def scenario_source_maps scenario_listing_def nth_opt_def)

text \<open>
  C9 (bounds precondition of the listing selection). \<^verbatim>\<open>asmLineSelected\<close> reads the cached
  listing at the selected index without a check. If it ends without a fault, the index was
  below the length of the cached listing; and at an index of the listing view that is at
  or past that length it highlights the line in the listing view and then faults with a
  TypeError, on the access to the annotation of the missing line.
\<close>

theorem C9_listing_selection_bounds:
  "(fault (asmLineSelected h st n) = None \<longrightarrow> n < length (lines (document st)))
   \<and> (length (lines (document st)) \<le> n \<and> n < lineCount (asmEditorDocument h st) \<longrightarrow>
        asmLineSelected h st n =
          \<lparr>state = st,
           calls = [SetDecorations (asmEditor st) SelectedLine
                      [lineRange (asmEditorDocument h st) n]],
           fault = Some TypeError\<rparr>)"
  using asmLineSelected_no_fault[of h st n] asmLineSelected_undefined[of st n h] by blast

text \<open>
  In the scenario the listing view has a fifth, empty line after the 4 lines of the cached
  listing: selecting it faults.
\<close>

theorem C9_listing_selection_bounds_witness:
  "length (lines (document scenario_decorator)) = 4
   \<and> lineCount (asmEditorDocument scenario_host scenario_decorator) = 5
   \<and> asmLineSelected scenario_host scenario_decorator 4 =
        \<lparr>state = scenario_decorator,
         calls = [SetDecorations 1 SelectedLine [TextRange 4 0 4 0]],
         fault = Some TypeError\<rparr>"
  using C9_listing_selection_bounds[of scenario_host scenario_decorator 4]
  by (simp add: scenario_documents scenario_lineCount scenario_lineRange
        scenario_decorator_fields)
     (simp add: scenario_listing_def)

text \<open>
  C2 (hidden-state isolation), at a state the constructor reaches: with only the source
  editor visible the decorator starts with \<open>visible = False\<close>, and a selection event of
  the source editor on line 2 still sets the selected decoration of both editors and
  reveals the listing editor. \<^verbatim>\<open>updateSelection\<close> does not read \<^verbatim>\<open>visible\<close>.
\<close>

theorem C2_selection_while_hidden:
  "visible hidden_decorator = False
   \<and> updateSelection hidden_host hidden_decorator 0 =
       \<lparr>state = hidden_decorator,
        calls = [SetDecorations 0 SelectedLine [TextRange 2 0 2 0],
                 SetDecorations 1 SelectedLine [TextRange 1 0 1 0, TextRange 2 0 2 0],
                 RevealRange 1 (TextRange 1 0 1 0) InCenterIfOutsideViewport],
        fault = None\<rparr>"
proof -
  have "selectionStartLine (editors hidden_host 0) = 2"
    by (simp add: hidden_host_def)
  then have "updateSelection hidden_host hidden_decorator 0
               = srcLineSelected hidden_host hidden_decorator 2"
    by (simp add: updateSelection_def hidden_decorator_fields)
  then show ?thesis
    by (simp add: srcLineSelected_eq hidden_documents scenario_lineCount scenario_lineRange
          hidden_decorator_bucket hidden_decorator_fields)
qed

section \<open>Visibility\<close>

text \<open>
  C8 (visibility no-op). \<^verbatim>\<open>updateVisibility\<close> with the stored visibility returns at once:
  the fields are unchanged, no call is issued, nothing faults. So when the callback of
  \<^verbatim>\<open>onDidChangeVisibleTextEditors\<close> recomputes the stored visibility, it issues no call
  (no reload, no decoration applied or cleared) and keeps visibility, listing and index; it
  may have re-bound the two editors before.
\<close>

theorem C8_visibility_no_op:
  "updateVisibility h st u (visible st) = \<lparr>state = st, calls = [], fault = None\<rparr>
   \<and> ((find (\<lambda>editor. editorDocument (editors h editor)
                          = editorDocument (editors h (srcEditor st))) eds \<noteq> None
        \<and> find (\<lambda>editor. editorDocument (editors h editor)
                          = editorDocument (editors h (asmEditor st))) eds \<noteq> None)
       = visible st \<longrightarrow>
         calls (onDidChangeVisibleTextEditors h st eds) = []
       \<and> fault (onDidChangeVisibleTextEditors h st eds) = None
       \<and> visible (state (onDidChangeVisibleTextEditors h st eds)) = visible st
       \<and> document (state (onDidChangeVisibleTextEditors h st eds)) = document st
       \<and> mappings (state (onDidChangeVisibleTextEditors h st eds)) = mappings st)"
  by (simp add: updateVisibility_def onDidChangeVisibleTextEditors_def ok_def Let_def)

text \<open>In the scenario, a second event with both editors visible changes nothing.\<close>

theorem C8_visibility_no_op_witness:
  "onDidChangeVisibleTextEditors scenario_host scenario_decorator [0, 1]
     = \<lparr>state = scenario_decorator, calls = [], fault = None\<rparr>"
proof -
  have f: "find (\<lambda>editor. editorDocument (editors scenario_host editor)
                    = editorDocument (editors scenario_host (srcEditor scenario_decorator))) [0, 1]
             = Some 0"
          "find (\<lambda>editor. editorDocument (editors scenario_host editor)
                    = editorDocument (editors scenario_host (asmEditor scenario_decorator))) [0, 1]
             = Some 1"
    by (simp_all add: scenario_decorator_fields scenario_host_def)
  have "calls (onDidChangeVisibleTextEditors scenario_host scenario_decorator [0, 1]) = []
      \<and> fault (onDidChangeVisibleTextEditors scenario_host scenario_decorator [0, 1]) = None"
    using C8_visibility_no_op[of scenario_host scenario_decorator u "[0, 1]" for u] f
    by (simp add: scenario_decorator_fields)
  moreover have "state (onDidChangeVisibleTextEditors scenario_host scenario_decorator [0, 1])
                   = scenario_decorator"
    using f scenario_decorator_fields(1,2,4)
    by (simp add: onDidChangeVisibleTextEditors_def updateVisibility_def ok_def Let_def)
  ultimately show ?thesis
    by (cases "onDidChangeVisibleTextEditors scenario_host scenario_decorator [0, 1]") simp
qed

end
